theory Spec2Isabelle
  imports Main "HOL-Library.Word"
begin

unbundle bit_operations_syntax

section \<open>Memory, bytes and the layout of the two structs\<close>

text \<open>
  The library overlays \<open>boot_stage_record_t\<close> on a caller-supplied buffer and keeps its
  administration in the static \<open>gboot_records_config\<close>. The model is byte-level: memory is a
  function from addresses to bytes, a pointer is an address and \<open>NULL\<close> is address 0.
  The caller's buffer is taken to be valid memory of at least \<open>size\<close> bytes that does not
  overlap the static configuration; addresses are natural numbers, so that pointer
  arithmetic inside the buffer never wraps. A label is passed by value, so it does not
  alias the buffer, and reading the clock has no effect on the state.
\<close>

type_synonym addr = nat
type_synonym byte = "8 word"
type_synonym memory = "addr \<Rightarrow> byte"
type_synonym uint32_t = "32 word"
type_synonym uint64_t = "64 word"

definition NULL :: addr where
  "NULL = 0"

text \<open>The byte order of the target is a parameter; every result holds for both.\<close>

datatype endianness = Little | Big

fun le_bytes :: "nat \<Rightarrow> 'a::len word \<Rightarrow> byte list" where
  "le_bytes 0 w = []"
| "le_bytes (Suc n) w = ucast w # le_bytes n (drop_bit 8 w)"

fun le_word :: "byte list \<Rightarrow> 'a::len word" where
  "le_word [] = 0"
| "le_word (b # bs) = ucast b OR push_bit 8 (le_word bs)"

definition encode :: "endianness \<Rightarrow> nat \<Rightarrow> 'a::len word \<Rightarrow> byte list" where
  "encode e n w = (case e of Little \<Rightarrow> le_bytes n w | Big \<Rightarrow> rev (le_bytes n w))"

definition decode :: "endianness \<Rightarrow> byte list \<Rightarrow> 'a::len word" where
  "decode e bs = (case e of Little \<Rightarrow> le_word bs | Big \<Rightarrow> le_word (rev bs))"

fun store_bytes :: "memory \<Rightarrow> addr \<Rightarrow> byte list \<Rightarrow> memory" where
  "store_bytes m p [] = m"
| "store_bytes m p (b # bs) = store_bytes (m(p := b)) (Suc p) bs"

fun load_bytes :: "memory \<Rightarrow> addr \<Rightarrow> nat \<Rightarrow> byte list" where
  "load_bytes m p 0 = []"
| "load_bytes m p (Suc n) = m p # load_bytes m (Suc p) n"

definition store_u32 :: "endianness \<Rightarrow> memory \<Rightarrow> addr \<Rightarrow> uint32_t \<Rightarrow> memory" where
  "store_u32 e m p v = store_bytes m p (encode e 4 v)"

definition load_u32 :: "endianness \<Rightarrow> memory \<Rightarrow> addr \<Rightarrow> uint32_t" where
  "load_u32 e m p = decode e (load_bytes m p 4)"

definition store_u64 :: "endianness \<Rightarrow> memory \<Rightarrow> addr \<Rightarrow> uint64_t \<Rightarrow> memory" where
  "store_u64 e m p v = store_bytes m p (encode e 8 v)"

definition load_u64 :: "endianness \<Rightarrow> memory \<Rightarrow> addr \<Rightarrow> uint64_t" where
  "load_u64 e m p = decode e (load_bytes m p 8)"

text \<open>\<open>memset(p, c, n)\<close>: the \<open>n\<close> bytes from \<open>p\<close> become \<open>c\<close>.\<close>

definition memset :: "memory \<Rightarrow> addr \<Rightarrow> byte \<Rightarrow> nat \<Rightarrow> memory" where
  "memset m p c n = (\<lambda>a. if p \<le> a \<and> a < p + n then c else m a)"

text \<open>
  A \<open>const char *\<close> argument is \<open>None\<close> for a null pointer and \<open>Some cs\<close> for a pointer to the
  characters \<open>cs\<close> followed by a terminating NUL. The string the C library sees ends at the
  first NUL, so a NUL inside \<open>cs\<close> ends it early.
\<close>

definition c_str :: "string \<Rightarrow> byte list" where
  "c_str cs = takeWhile (\<lambda>b. b \<noteq> 0) (map of_char cs)"

text \<open>
  \<open>strncpy(dest, src, n)\<close> writes exactly \<open>n\<close> bytes: the first \<open>n\<close> characters of the
  source string and, when the string is shorter, NUL bytes up to \<open>n\<close>.
\<close>

definition strncpy_bytes :: "string \<Rightarrow> nat \<Rightarrow> byte list" where
  "strncpy_bytes src n = take n (c_str src) @ replicate (n - length (c_str src)) 0"

definition strncpy :: "memory \<Rightarrow> addr \<Rightarrow> string \<Rightarrow> nat \<Rightarrow> memory" where
  "strncpy m dest src n = store_bytes m dest (strncpy_bytes src n)"

subsection \<open>bootrecord.h\<close>

type_synonym boot_record_status_t = int

definition BOOT_RECORD_SUCCESS :: boot_record_status_t where
  "BOOT_RECORD_SUCCESS = 0"

definition BOOT_RECORD_ERR_INVALID_PARAMS :: boot_record_status_t where
  "BOOT_RECORD_ERR_INVALID_PARAMS = - 1"

definition BOOT_RECORD_ERR_INSUFFICIENT_MEM :: boot_record_status_t where
  "BOOT_RECORD_ERR_INSUFFICIENT_MEM = - 2"

definition BOOT_RECORD_ERR_OVERFLOW :: boot_record_status_t where
  "BOOT_RECORD_ERR_OVERFLOW = - 3"

text \<open>
  \<open>boot_record_profile_t\<close> is \<open>char name[24]\<close> at offset 0 and \<open>uint64_t time\<close> at offset 24:
  32 bytes. \<open>boot_stage_record_t\<close> is \<open>uint32_t record_id\<close> at 0, \<open>uint32_t record_count\<close>
  at 4, \<open>uint64_t start_time\<close> at 8 and the zero-length array \<open>profiles\<close> at 16: 16 bytes.
\<close>

definition sizeof_name :: nat where
  "sizeof_name = 24"

definition sizeof_boot_record_profile_t :: nat where
  "sizeof_boot_record_profile_t = 32"

definition sizeof_boot_stage_record_t :: nat where
  "sizeof_boot_stage_record_t = 16"

definition offsetof_name :: nat where
  "offsetof_name = 0"

definition offsetof_time :: nat where
  "offsetof_time = 24"

definition offsetof_record_id :: nat where
  "offsetof_record_id = 0"

definition offsetof_record_count :: nat where
  "offsetof_record_count = 4"

definition offsetof_start_time :: nat where
  "offsetof_start_time = 8"

definition offsetof_profiles :: nat where
  "offsetof_profiles = 16"

record boot_records_t =
  memory_base :: addr
  memory_size :: uint32_t
  possible_records :: uint32_t
  records :: addr

text \<open>The program state: the static configuration and the memory.\<close>

record state =
  gboot_records_config :: boot_records_t
  mem :: memory

text \<open>A static object starts zeroed: no buffer is bound.\<close>

definition zero_config :: boot_records_t where
  "zero_config = \<lparr>memory_base = NULL, memory_size = 0, possible_records = 0, records = NULL\<rparr>"

definition initial_state :: "memory \<Rightarrow> state" where
  "initial_state m = \<lparr>gboot_records_config = zero_config, mem = m\<rparr>"

subsection \<open>bootrecord.c\<close>

text \<open>
  The value \<open>boot_record_get_timestamp()\<close> returns at a call is the argument \<open>now\<close>.
  In \<open>boot_record_init\<close> the subtraction \<open>size - sizeof(boot_stage_record_t)\<close> is only
  reached with \<open>size \<ge> 48\<close>, so it does not wrap in \<open>size_t\<close> and is the subtraction of
  natural numbers; the quotient is stored in the 32-bit field.
\<close>

definition boot_record_init ::
  "endianness \<Rightarrow> uint64_t \<Rightarrow> uint32_t \<Rightarrow> addr \<Rightarrow> uint32_t \<Rightarrow> state \<Rightarrow> boot_record_status_t \<times> state" where
  "boot_record_init e now stage_id memory_addr size' s =
    (if memory_addr = NULL \<or>
        unat size' < sizeof_boot_stage_record_t + sizeof_boot_record_profile_t
     then (BOOT_RECORD_ERR_INVALID_PARAMS, s)
     else
       let m1 = memset (mem s) memory_addr 0 (unat size');
           c1 = zero_config;
           c2 = c1\<lparr>memory_base := memory_addr\<rparr>;
           c3 = c2\<lparr>memory_size := size'\<rparr>;
           c4 = c3\<lparr>records := memory_addr\<rparr>;
           c5 = c4\<lparr>possible_records :=
                  of_nat ((unat size' - sizeof_boot_stage_record_t) div
                          sizeof_boot_record_profile_t)\<rparr>
       in
         if possible_records c5 = 0
         then (BOOT_RECORD_ERR_INSUFFICIENT_MEM, \<lparr>gboot_records_config = c5, mem = m1\<rparr>)
         else
           let stage = records c5;
               m2 = store_u32 e m1 (stage + offsetof_record_id) stage_id;
               m3 = store_u32 e m2 (stage + offsetof_record_count) 0;
               m4 = store_u64 e m3 (stage + offsetof_start_time) now
           in (BOOT_RECORD_SUCCESS, \<lparr>gboot_records_config = c5, mem = m4\<rparr>))"

definition boot_record_log_profile ::
  "endianness \<Rightarrow> uint64_t \<Rightarrow> string option \<Rightarrow> state \<Rightarrow> boot_record_status_t \<times> state" where
  "boot_record_log_profile e now name s =
    (case name of
       None \<Rightarrow> (BOOT_RECORD_ERR_INVALID_PARAMS, s)
     | Some label \<Rightarrow>
         let c = gboot_records_config s in
         if records c = NULL \<or> memory_base c = NULL
         then (BOOT_RECORD_ERR_INVALID_PARAMS, s)
         else
           let stage = records c in
           if load_u32 e (mem s) (stage + offsetof_record_count) \<ge> possible_records c
           then (BOOT_RECORD_ERR_OVERFLOW, s)
           else
             let profile = stage + offsetof_profiles +
                   unat (load_u32 e (mem s) (stage + offsetof_record_count)) *
                   sizeof_boot_record_profile_t;
                 m1 = strncpy (mem s) (profile + offsetof_name) label (sizeof_name - 1);
                 m2 = m1(profile + offsetof_name + (sizeof_name - 1) := 0);
                 m3 = store_u64 e m2 (profile + offsetof_time) now;
                 m4 = store_u32 e m3 (stage + offsetof_record_count)
                        (load_u32 e m3 (stage + offsetof_record_count) + 1)
             in (BOOT_RECORD_SUCCESS, s\<lparr>mem := m4\<rparr>))"

subsection \<open>Reading the buffer through the documented layout\<close>

text \<open>
  \<open>boot_record_log_profile\<close> treats the store as initialised when both pointers of the
  configuration are set.
\<close>

definition active :: "state \<Rightarrow> bool" where
  "active s = (records (gboot_records_config s) \<noteq> NULL \<and>
               memory_base (gboot_records_config s) \<noteq> NULL)"

definition record_id :: "endianness \<Rightarrow> state \<Rightarrow> uint32_t" where
  "record_id e s = load_u32 e (mem s) (records (gboot_records_config s) + offsetof_record_id)"

definition record_count :: "endianness \<Rightarrow> state \<Rightarrow> uint32_t" where
  "record_count e s =
     load_u32 e (mem s) (records (gboot_records_config s) + offsetof_record_count)"

definition start_time :: "endianness \<Rightarrow> state \<Rightarrow> uint64_t" where
  "start_time e s =
     load_u64 e (mem s) (records (gboot_records_config s) + offsetof_start_time)"

text \<open>The address of \<open>stage->profiles[i]\<close>.\<close>

definition profile_addr :: "state \<Rightarrow> nat \<Rightarrow> addr" where
  "profile_addr s i =
     records (gboot_records_config s) + offsetof_profiles + i * sizeof_boot_record_profile_t"

definition profile_name :: "state \<Rightarrow> nat \<Rightarrow> byte list" where
  "profile_name s i = load_bytes (mem s) (profile_addr s i + offsetof_name) sizeof_name"

definition profile_time :: "endianness \<Rightarrow> state \<Rightarrow> nat \<Rightarrow> uint64_t" where
  "profile_time e s i = load_u64 e (mem s) (profile_addr s i + offsetof_time)"

subsection \<open>Sequences of calls\<close>

text \<open>A call carries the clock value read while it runs.\<close>

datatype call =
  Init uint64_t uint32_t addr uint32_t
| Log uint64_t "string option"

fun is_init :: "call \<Rightarrow> bool" where
  "is_init (Init now stage_id memory_addr size') = True"
| "is_init (Log now name) = False"

fun call_step :: "endianness \<Rightarrow> call \<Rightarrow> state \<Rightarrow> boot_record_status_t \<times> state" where
  "call_step e (Init now stage_id memory_addr size') s =
     boot_record_init e now stage_id memory_addr size' s"
| "call_step e (Log now name) s = boot_record_log_profile e now name s"

fun run :: "endianness \<Rightarrow> call list \<Rightarrow> state \<Rightarrow> boot_record_status_t list \<times> state" where
  "run e [] s = ([], s)"
| "run e (c # cs) s =
     (let (r, s1) = call_step e c s;
          (rs, s2) = run e cs s1
      in (r # rs, s2))"

text \<open>
  Whether some \<open>boot_record_init\<close> among the calls returned success, given the statuses the
  calls returned.
\<close>

fun init_succeeded :: "call list \<Rightarrow> boot_record_status_t list \<Rightarrow> bool" where
  "init_succeeded (c # cs) (r # rs) =
     ((is_init c \<and> r = BOOT_RECORD_SUCCESS) \<or> init_succeeded cs rs)"
| "init_succeeded cs rs = False"

definition zero_memory :: memory where
  "zero_memory = (\<lambda>a. 0)"

text \<open>
  Two concrete stores on a little-endian target, for the examples: a 48-byte buffer at
  address 4096 right after initialisation, and the same store after one logged profile,
  which fills it.
\<close>

definition example_fresh :: state where
  "example_fresh = snd (boot_record_init Little 100 1 4096 48 (initial_state zero_memory))"

definition example_full :: state where
  "example_full = snd (boot_record_log_profile Little 101 (Some ''A'') example_fresh)"

text \<open>A 1024-byte buffer at the same address, fresh and with one logged profile.\<close>

definition example_big :: state where
  "example_big = snd (boot_record_init Little 100 1 4096 1024 (initial_state zero_memory))"

definition example_one :: state where
  "example_one = snd (boot_record_log_profile Little 101 (Some ''A'') example_big)"

section \<open>Bytes and memory\<close>

lemma length_le_bytes [simp]: "length (le_bytes n w) = n"
  by (induction n arbitrary: w) simp_all

lemma le_word_le_bytes: "le_word (le_bytes n w) = (take_bit (8 * n) w :: 'a::len word)"
proof (induction n arbitrary: w)
  case 0
  show ?case by simp
next
  case (Suc n)
  show ?case
    apply (simp add: Suc)
    apply (rule bit_word_eqI)
    apply (auto simp: bit_simps)
    done
qed

lemma length_encode [simp]: "length (encode e n w) = n"
  by (cases e) (simp_all add: encode_def)

lemma decode_encode: "decode e (encode e n w) = (take_bit (8 * n) w :: 'a::len word)"
  by (cases e) (simp_all add: decode_def encode_def le_word_le_bytes)

lemma decode_encode_u32: "decode e (encode e 4 w) = (w :: uint32_t)"
  by (simp add: decode_encode take_bit_word_eq_self)

lemma decode_encode_u64: "decode e (encode e 8 w) = (w :: uint64_t)"
  by (simp add: decode_encode take_bit_word_eq_self)

lemma store_bytes_apply:
  "store_bytes m p bs a = (if p \<le> a \<and> a < p + length bs then bs ! (a - p) else m a)"
proof (induction bs arbitrary: m p)
  case Nil
  show ?case by auto
next
  case (Cons b bs)
  show ?case by (auto simp: Cons nth_Cons')
qed

lemma length_load_bytes [simp]: "length (load_bytes m p n) = n"
  by (induction n arbitrary: p) simp_all

lemma nth_load_bytes: "i < n \<Longrightarrow> load_bytes m p n ! i = m (p + i)"
proof (induction n arbitrary: p i)
  case 0
  then show ?case by simp
next
  case (Suc n)
  then show ?case by (cases i) simp_all
qed

lemma load_bytes_cong:
  assumes "\<And>a. p \<le> a \<Longrightarrow> a < p + n \<Longrightarrow> m a = m' a"
  shows "load_bytes m p n = load_bytes m' p n"
  by (rule nth_equalityI) (simp_all add: nth_load_bytes assms)

lemma load_bytes_store_bytes_same: "load_bytes (store_bytes m p bs) p (length bs) = bs"
  by (rule nth_equalityI) (simp_all add: nth_load_bytes store_bytes_apply)

lemma load_bytes_append: "load_bytes m p (i + j) = load_bytes m p i @ load_bytes m (p + i) j"
  by (rule nth_equalityI) (auto simp: nth_load_bytes nth_append)

lemma load_u32_cong:
  "(\<And>a. p \<le> a \<Longrightarrow> a < p + 4 \<Longrightarrow> m a = m' a) \<Longrightarrow> load_u32 e m p = load_u32 e m' p"
  unfolding load_u32_def by (rule arg_cong [where f = "decode e"], rule load_bytes_cong)

lemma load_u64_cong:
  "(\<And>a. p \<le> a \<Longrightarrow> a < p + 8 \<Longrightarrow> m a = m' a) \<Longrightarrow> load_u64 e m p = load_u64 e m' p"
  unfolding load_u64_def by (rule arg_cong [where f = "decode e"], rule load_bytes_cong)

lemma store_u32_apply_out: "a < p \<or> p + 4 \<le> a \<Longrightarrow> store_u32 e m p v a = m a"
  by (auto simp: store_u32_def store_bytes_apply)

lemma store_u64_apply_out: "a < p \<or> p + 8 \<le> a \<Longrightarrow> store_u64 e m p v a = m a"
  by (auto simp: store_u64_def store_bytes_apply)

lemma load_u32_store_u32_same: "load_u32 e (store_u32 e m p v) p = v"
  using load_bytes_store_bytes_same [of m p "encode e 4 v"]
  by (simp add: load_u32_def store_u32_def decode_encode_u32)

lemma load_u64_store_u64_same: "load_u64 e (store_u64 e m p v) p = v"
  using load_bytes_store_bytes_same [of m p "encode e 8 v"]
  by (simp add: load_u64_def store_u64_def decode_encode_u64)

section \<open>Initialisation\<close>

lemmas layout_defs = sizeof_name_def sizeof_boot_record_profile_t_def
  sizeof_boot_stage_record_t_def offsetof_name_def offsetof_time_def offsetof_record_id_def
  offsetof_record_count_def offsetof_start_time_def offsetof_profiles_def

lemmas status_defs = BOOT_RECORD_SUCCESS_def BOOT_RECORD_ERR_INVALID_PARAMS_def
  BOOT_RECORD_ERR_INSUFFICIENT_MEM_def BOOT_RECORD_ERR_OVERFLOW_def

lemma capacity_unat:
  "unat (of_nat ((unat (sz :: uint32_t) - 16) div 32) :: uint32_t) = (unat sz - 16) div 32"
proof -
  have "unat sz < 2 ^ 32" using unsigned_less [of sz] by simp
  then have "(unat sz - 16) div 32 < 2 ^ 32" by simp
  then show ?thesis by (simp add: unat_of_nat)
qed

lemma capacity_nonzero:
  assumes "48 \<le> unat (sz :: uint32_t)"
  shows "(of_nat ((unat sz - 16) div 32) :: uint32_t) \<noteq> 0"
proof
  assume "(of_nat ((unat sz - 16) div 32) :: uint32_t) = 0"
  then have "unat (of_nat ((unat sz - 16) div 32) :: uint32_t) = 0" by simp
  then have "(unat sz - 16) div 32 = 0" by (simp only: capacity_unat)
  with assms show False by simp
qed

lemma init_invalid:
  "memory_addr = NULL \<or> unat sz < 48 \<Longrightarrow>
   boot_record_init e now stage_id memory_addr sz s = (BOOT_RECORD_ERR_INVALID_PARAMS, s)"
  by (auto simp: boot_record_init_def layout_defs)

lemma init_success:
  assumes "memory_addr \<noteq> NULL" and "48 \<le> unat sz"
  shows "boot_record_init e now stage_id memory_addr sz s =
    (BOOT_RECORD_SUCCESS,
     \<lparr>gboot_records_config =
        \<lparr>memory_base = memory_addr, memory_size = sz,
         possible_records = of_nat ((unat sz - 16) div 32), records = memory_addr\<rparr>,
      mem = store_u64 e (store_u32 e (store_u32 e (memset (mem s) memory_addr 0 (unat sz))
              memory_addr stage_id) (memory_addr + 4) 0) (memory_addr + 8) now\<rparr>)"
  using assms capacity_nonzero [OF assms(2)]
  by (simp add: boot_record_init_def layout_defs zero_config_def Let_def)

lemma init_status:
  "fst (boot_record_init e now stage_id memory_addr sz s) =
     (if memory_addr = NULL \<or> unat sz < 48 then BOOT_RECORD_ERR_INVALID_PARAMS
      else BOOT_RECORD_SUCCESS)"
  by (cases "memory_addr = NULL \<or> unat sz < 48")
     (simp_all add: init_invalid init_success del: de_Morgan_disj, simp add: init_success)

lemma capacity_uint:
  assumes "48 \<le> unat (sz :: uint32_t)"
  shows "uint (of_nat ((unat sz - 16) div 32) :: uint32_t) = (uint sz - 16) div 32"
proof -
  have "uint (of_nat ((unat sz - 16) div 32) :: uint32_t) = int ((unat sz - 16) div 32)"
    using capacity_unat [of sz] by (metis uint_nat)
  also have "\<dots> = (int (unat sz) - 16) div 32"
    using assms by (simp add: zdiv_int of_nat_diff)
  finally show ?thesis by simp
qed

text \<open>
  The capacity as C computes it, in \<open>size_t\<close> of 32 or of 64 bits and stored in the 32-bit
  field, is the quotient of natural numbers that the model of \<open>boot_record_init\<close> uses.
\<close>

lemma capacity_size_t_32:
  assumes "48 \<le> unat (sz :: uint32_t)"
  shows "(sz - 16) div 32 = (of_nat ((unat sz - 16) div 32) :: uint32_t)"
proof -
  have "(16 :: uint32_t) \<le> sz"
    using assms by (simp add: word_le_nat_alt)
  then have "unat ((sz - 16) div 32) = (unat sz - 16) div 32"
    by (simp add: unat_div unat_sub)
  moreover have "(sz - 16) div 32 = of_nat (unat ((sz - 16) div 32))"
    by simp
  ultimately show ?thesis by simp
qed

lemma capacity_size_t_64:
  assumes "48 \<le> unat (sz :: uint32_t)"
  shows "(ucast (((ucast sz :: 64 word) - 16) div 32) :: uint32_t) =
    of_nat ((unat sz - 16) div 32)"
proof -
  have "unat sz < 2 ^ 32" using unsigned_less [of sz] by simp
  then have "unat sz < 2 ^ 64" by simp
  then have u: "unat (ucast sz :: 64 word) = unat sz"
    by (simp add: unsigned_ucast_eq take_bit_nat_eq_self)
  have "(16 :: 64 word) \<le> ucast sz"
    using assms by (simp add: word_le_nat_alt u)
  then have "unat (((ucast sz :: 64 word) - 16) div 32) = (unat sz - 16) div 32"
    by (simp add: unat_div unat_sub u)
  moreover have "(ucast (((ucast sz :: 64 word) - 16) div 32) :: uint32_t) =
      of_nat (unat (((ucast sz :: 64 word) - 16) div 32))"
    by simp
  ultimately show ?thesis by simp
qed

section \<open>Logging a profile\<close>

lemma length_strncpy_bytes [simp]: "length (strncpy_bytes src n) = n"
  by (simp add: strncpy_bytes_def)

lemma log_null: "boot_record_log_profile e now None s = (BOOT_RECORD_ERR_INVALID_PARAMS, s)"
  by (simp add: boot_record_log_profile_def)

lemma log_inactive:
  "\<not> active s \<Longrightarrow> boot_record_log_profile e now name s = (BOOT_RECORD_ERR_INVALID_PARAMS, s)"
  by (cases name) (auto simp: boot_record_log_profile_def active_def Let_def)

lemma log_overflow:
  "active s \<Longrightarrow> possible_records (gboot_records_config s) \<le> record_count e s \<Longrightarrow>
   boot_record_log_profile e now (Some l) s = (BOOT_RECORD_ERR_OVERFLOW, s)"
  by (simp add: boot_record_log_profile_def active_def record_count_def Let_def)

lemma log_success:
  assumes "active s" and "record_count e s < possible_records (gboot_records_config s)"
  shows "boot_record_log_profile e now (Some l) s =
    (BOOT_RECORD_SUCCESS,
     s\<lparr>mem := store_u32 e
        (store_u64 e
          ((store_bytes (mem s) (profile_addr s (unat (record_count e s))) (strncpy_bytes l 23))
             (profile_addr s (unat (record_count e s)) + 23 := 0))
          (profile_addr s (unat (record_count e s)) + 24) now)
        (records (gboot_records_config s) + 4) (record_count e s + 1)\<rparr>)"
proof -
  let ?R = "records (gboot_records_config s)"
  let ?P = "profile_addr s (unat (record_count e s))"
  let ?m3 = "store_u64 e ((store_bytes (mem s) ?P (strncpy_bytes l 23))(?P + 23 := 0)) (?P + 24) now"
  have P: "?R + 16 \<le> ?P" by (simp add: profile_addr_def layout_defs)
  have "load_u32 e ?m3 (?R + 4) = load_u32 e (mem s) (?R + 4)"
    by (rule load_u32_cong) (use P in \<open>simp add: store_u64_apply_out store_bytes_apply\<close>)
  then have reread: "load_u32 e ?m3 (?R + 4) = record_count e s"
    by (simp add: record_count_def layout_defs)
  have nov: "\<not> possible_records (gboot_records_config s) \<le> record_count e s"
    using assms(2) by simp
  show ?thesis
    using assms(1) reread nov
    unfolding record_count_def profile_addr_def active_def layout_defs
    by (simp add: boot_record_log_profile_def Let_def strncpy_def layout_defs)
qed

lemma log_cases:
  "boot_record_log_profile e now name s = (BOOT_RECORD_ERR_INVALID_PARAMS, s) \<or>
   boot_record_log_profile e now name s = (BOOT_RECORD_ERR_OVERFLOW, s) \<or>
   (\<exists>l. name = Some l \<and> active s \<and>
        record_count e s < possible_records (gboot_records_config s))"
proof (cases name)
  case None
  then show ?thesis by (simp add: log_null)
next
  case (Some l)
  show ?thesis
  proof (cases "active s")
    case False
    then show ?thesis by (simp add: log_inactive)
  next
    case True
    then show ?thesis
      using log_overflow [of s e now l] Some
      by (cases "record_count e s < possible_records (gboot_records_config s)") auto
  qed
qed

lemma log_config:
  "gboot_records_config (snd (boot_record_log_profile e now name s)) = gboot_records_config s"
  using log_cases [of e now name s] by (auto simp: log_success)

lemma log_frame:
  assumes "\<not> (records (gboot_records_config s) + 4 \<le> a \<and>
              a < records (gboot_records_config s) + 8)"
    and "\<not> (profile_addr s (unat (record_count e s)) \<le> a \<and>
            a < profile_addr s (unat (record_count e s)) + 32)"
  shows "mem (snd (boot_record_log_profile e now name s)) a = mem s a"
  using log_cases [of e now name s] assms
  by (auto simp: log_success store_u32_apply_out store_u64_apply_out store_bytes_apply)

lemma log_success_count:
  assumes "active s" and "record_count e s < possible_records (gboot_records_config s)"
  shows "record_count e (snd (boot_record_log_profile e now (Some l) s)) = record_count e s + 1"
  by (simp add: log_success [OF assms] record_count_def [of e "_\<lparr>mem := _\<rparr>"] layout_defs
      load_u32_store_u32_same)

lemma log_success_time:
  assumes "active s" and "record_count e s < possible_records (gboot_records_config s)"
  shows "profile_time e (snd (boot_record_log_profile e now (Some l) s))
           (unat (record_count e s)) = now"
proof -
  let ?R = "records (gboot_records_config s)"
  let ?P = "profile_addr s (unat (record_count e s))"
  let ?m3 = "store_u64 e ((store_bytes (mem s) ?P (strncpy_bytes l 23))(?P + 23 := 0)) (?P + 24) now"
  have P: "?R + 16 \<le> ?P" by (simp add: profile_addr_def layout_defs)
  have "load_u64 e (store_u32 e ?m3 (?R + 4) (record_count e s + 1)) (?P + 24) =
        load_u64 e ?m3 (?P + 24)"
    by (rule load_u64_cong) (use P in \<open>simp add: store_u32_apply_out\<close>)
  then show ?thesis
    by (simp add: log_success [OF assms] profile_time_def profile_addr_def layout_defs
        load_u64_store_u64_same)
qed

lemma log_success_name:
  assumes "active s" and "record_count e s < possible_records (gboot_records_config s)"
  shows "profile_name (snd (boot_record_log_profile e now (Some l) s))
           (unat (record_count e s)) = strncpy_bytes l 23 @ [0]"
proof -
  let ?R = "records (gboot_records_config s)"
  let ?P = "profile_addr s (unat (record_count e s))"
  let ?s' = "snd (boot_record_log_profile e now (Some l) s)"
  have P: "?R + 16 \<le> ?P" by (simp add: profile_addr_def layout_defs)
  have cfg: "profile_addr ?s' = profile_addr s"
    by (rule ext) (simp add: profile_addr_def log_config)
  have "load_bytes (mem ?s') ?P 24 = strncpy_bytes l 23 @ [0]"
  proof (rule nth_equalityI)
    show "length (load_bytes (mem ?s') ?P 24) = length (strncpy_bytes l 23 @ [0])" by simp
  next
    fix i
    assume "i < length (load_bytes (mem ?s') ?P 24)"
    then have i: "i < 24" by simp
    then show "load_bytes (mem ?s') ?P 24 ! i = (strncpy_bytes l 23 @ [0]) ! i"
      using P
      by (auto simp: nth_load_bytes log_success [OF assms] store_u32_apply_out
          store_u64_apply_out store_bytes_apply nth_append)
  qed
  then show ?thesis by (simp add: profile_name_def cfg layout_defs)
qed

subsection \<open>What logging leaves alone\<close>

lemma log_keeps_record_id:
  "record_id e (snd (boot_record_log_profile e now name s)) = record_id e s"
  unfolding record_id_def log_config
  by (rule load_u32_cong) (simp add: log_frame profile_addr_def layout_defs)

lemma log_keeps_start_time:
  "start_time e (snd (boot_record_log_profile e now name s)) = start_time e s"
  unfolding start_time_def log_config
  by (rule load_u64_cong) (simp add: log_frame profile_addr_def layout_defs)

lemma profile_addr_log [simp]:
  "profile_addr (snd (boot_record_log_profile e now name s)) i = profile_addr s i"
  by (simp add: profile_addr_def log_config)

lemma log_keeps_profile_name:
  assumes "i < unat (record_count e s)"
  shows "profile_name (snd (boot_record_log_profile e now name s)) i = profile_name s i"
  unfolding profile_name_def profile_addr_log
  by (rule load_bytes_cong) (use assms in \<open>simp add: log_frame profile_addr_def layout_defs\<close>)

lemma log_keeps_profile_time:
  assumes "i < unat (record_count e s)"
  shows "profile_time e (snd (boot_record_log_profile e now name s)) i = profile_time e s i"
  unfolding profile_time_def profile_addr_log
  by (rule load_u64_cong) (use assms in \<open>simp add: log_frame profile_addr_def layout_defs\<close>)

lemma log_not_success:
  "fst (boot_record_log_profile e now name s) \<noteq> BOOT_RECORD_SUCCESS \<Longrightarrow>
   snd (boot_record_log_profile e now name s) = s"
  using log_cases [of e now name s] by (auto simp: log_success)

section \<open>Sequences of calls\<close>

lemma init_failed:
  "fst (boot_record_init e now stage_id memory_addr sz s) \<noteq> BOOT_RECORD_SUCCESS \<Longrightarrow>
   boot_record_init e now stage_id memory_addr sz s = (BOOT_RECORD_ERR_INVALID_PARAMS, s)"
  by (rule init_invalid) (auto simp: init_status split: if_splits)

lemma run_Cons:
  "run e (c # cs) s =
     (fst (call_step e c s) # fst (run e cs (snd (call_step e c s))),
      snd (run e cs (snd (call_step e c s))))"
  by (simp add: split_def Let_def)

lemma run_Nil: "run e [] s = ([], s)"
  by simp

declare run.simps [simp del]

lemma length_run [simp]: "length (fst (run e cs s)) = length cs"
  by (induction cs arbitrary: s) (simp_all add: run_Cons run_Nil)

lemma run_inactive:
  assumes "\<not> active s" and "\<not> init_succeeded cs (fst (run e cs s))"
  shows "run e cs s = (map (\<lambda>c. BOOT_RECORD_ERR_INVALID_PARAMS) cs, s)"
  using assms
proof (induction cs)
  case Nil
  show ?case by (simp add: run_Nil)
next
  case (Cons c cs)
  have step: "call_step e c s = (BOOT_RECORD_ERR_INVALID_PARAMS, s)"
  proof (cases c)
    case (Init now stage_id memory_addr sz)
    with Cons.prems(2) show ?thesis by (auto simp: run_Cons intro: init_failed)
  next
    case (Log now name)
    with Cons.prems(1) show ?thesis by (simp add: log_inactive)
  qed
  with Cons show ?case by (simp add: run_Cons)
qed

lemma run_full:
  assumes "active s" and "possible_records (gboot_records_config s) \<le> record_count e s"
    and "\<not> init_succeeded cs (fst (run e cs s))"
  shows "run e cs s =
    (map (\<lambda>c. case c of Log t (Some l) \<Rightarrow> BOOT_RECORD_ERR_OVERFLOW
                 | _ \<Rightarrow> BOOT_RECORD_ERR_INVALID_PARAMS) cs, s)"
  using assms(3)
proof (induction cs)
  case Nil
  show ?case by (simp add: run_Nil)
next
  case (Cons c cs)
  have step: "call_step e c s =
    (case c of Log t (Some l) \<Rightarrow> BOOT_RECORD_ERR_OVERFLOW
       | _ \<Rightarrow> BOOT_RECORD_ERR_INVALID_PARAMS, s)"
  proof (cases c)
    case (Init now stage_id memory_addr sz)
    with Cons.prems show ?thesis by (auto simp: run_Cons intro: init_failed)
  next
    case (Log now name)
    then show ?thesis
      using assms(1,2) by (cases name) (simp_all add: log_null log_overflow)
  qed
  with Cons show ?case by (simp add: run_Cons)
qed

section \<open>What a successful initialisation leaves\<close>

lemma init_ok_config:
  assumes "memory_addr \<noteq> NULL" and "48 \<le> unat sz"
  shows "gboot_records_config (snd (boot_record_init e now stage_id memory_addr sz s)) =
    \<lparr>memory_base = memory_addr, memory_size = sz,
     possible_records = of_nat ((unat sz - 16) div 32), records = memory_addr\<rparr>"
  by (simp add: init_success [OF assms])

lemma init_ok_active:
  assumes "memory_addr \<noteq> NULL" and "48 \<le> unat sz"
  shows "active (snd (boot_record_init e now stage_id memory_addr sz s))"
  using assms(1) by (simp add: active_def init_ok_config [OF assms])

lemma init_ok_mem:
  assumes "memory_addr \<noteq> NULL" and "48 \<le> unat sz"
  shows "mem (snd (boot_record_init e now stage_id memory_addr sz s)) =
    store_u64 e (store_u32 e (store_u32 e (memset (mem s) memory_addr 0 (unat sz))
       memory_addr stage_id) (memory_addr + 4) 0) (memory_addr + 8) now"
  by (simp add: init_success [OF assms])

lemma init_ok_record_count:
  assumes "memory_addr \<noteq> NULL" and "48 \<le> unat sz"
  shows "record_count e (snd (boot_record_init e now stage_id memory_addr sz s)) = 0"
proof -
  let ?m3 = "store_u32 e (store_u32 e (memset (mem s) memory_addr 0 (unat sz))
       memory_addr stage_id) (memory_addr + 4) 0"
  have "load_u32 e (store_u64 e ?m3 (memory_addr + 8) now) (memory_addr + 4) =
        load_u32 e ?m3 (memory_addr + 4)"
    by (rule load_u32_cong) (simp add: store_u64_apply_out)
  then show ?thesis
    by (simp add: record_count_def init_ok_config [OF assms] init_ok_mem [OF assms]
        layout_defs load_u32_store_u32_same)
qed

lemma init_ok_record_id:
  assumes "memory_addr \<noteq> NULL" and "48 \<le> unat sz"
  shows "record_id e (snd (boot_record_init e now stage_id memory_addr sz s)) = stage_id"
proof -
  let ?m2 = "store_u32 e (memset (mem s) memory_addr 0 (unat sz)) memory_addr stage_id"
  have "load_u32 e (store_u64 e (store_u32 e ?m2 (memory_addr + 4) 0) (memory_addr + 8) now)
          memory_addr = load_u32 e ?m2 memory_addr"
    by (rule load_u32_cong) (simp add: store_u64_apply_out store_u32_apply_out)
  then show ?thesis
    by (simp add: record_id_def init_ok_config [OF assms] init_ok_mem [OF assms]
        layout_defs load_u32_store_u32_same)
qed

lemma init_ok_start_time:
  assumes "memory_addr \<noteq> NULL" and "48 \<le> unat sz"
  shows "start_time e (snd (boot_record_init e now stage_id memory_addr sz s)) = now"
  by (simp add: start_time_def init_ok_config [OF assms] init_ok_mem [OF assms]
      layout_defs load_u64_store_u64_same)

lemma init_ok_body_zero:
  assumes "memory_addr \<noteq> NULL" and "48 \<le> unat sz"
    and "memory_addr + 16 \<le> a" and "a < memory_addr + unat sz"
  shows "mem (snd (boot_record_init e now stage_id memory_addr sz s)) a = 0"
  using assms(3,4)
  by (simp add: init_ok_mem [OF assms(1,2)] store_u64_apply_out store_u32_apply_out memset_def)

lemma init_ok_outside:
  assumes "memory_addr \<noteq> NULL" and "48 \<le> unat sz"
    and "a < memory_addr \<or> memory_addr + unat sz \<le> a"
  shows "mem (snd (boot_record_init e now stage_id memory_addr sz s)) a = mem s a"
  using assms(2,3)
  by (auto simp: init_ok_mem [OF assms(1,2)] store_u64_apply_out store_u32_apply_out memset_def)

lemma init_ok_inside_independent:
  assumes "memory_addr \<noteq> NULL" and "48 \<le> unat sz"
    and "memory_addr \<le> a" and "a < memory_addr + unat sz"
  shows "mem (snd (boot_record_init e now stage_id memory_addr sz s)) a =
         mem (snd (boot_record_init e now stage_id memory_addr sz s')) a"
  using assms(3,4)
  by (simp add: init_ok_mem [OF assms(1,2)] store_u64_def store_u32_def store_bytes_apply
      memset_def)

section \<open>The example stores\<close>

lemma example_fresh_config:
  "gboot_records_config example_fresh =
     \<lparr>memory_base = 4096, memory_size = 48, possible_records = 1, records = 4096\<rparr>"
  by (simp add: example_fresh_def init_ok_config NULL_def)

lemma example_fresh_active: "active example_fresh"
  by (simp add: example_fresh_def init_ok_active NULL_def)

lemma example_fresh_count: "record_count Little example_fresh = 0"
  by (simp add: example_fresh_def init_ok_record_count NULL_def)

lemma example_full_config:
  "gboot_records_config example_full =
     \<lparr>memory_base = 4096, memory_size = 48, possible_records = 1, records = 4096\<rparr>"
  by (simp add: example_full_def log_config example_fresh_config)

lemma example_full_active: "active example_full"
  by (simp add: active_def example_full_config NULL_def)

lemma example_full_count: "record_count Little example_full = 1"
  by (simp add: example_full_def log_success_count example_fresh_active example_fresh_count
      example_fresh_config)

lemma example_big_config:
  "gboot_records_config example_big =
     \<lparr>memory_base = 4096, memory_size = 1024, possible_records = 31, records = 4096\<rparr>"
  by (simp add: example_big_def init_ok_config NULL_def)

lemma example_big_active: "active example_big"
  by (simp add: example_big_def init_ok_active NULL_def)

lemma example_big_count: "record_count Little example_big = 0"
  by (simp add: example_big_def init_ok_record_count NULL_def)

lemma example_one_config:
  "gboot_records_config example_one =
     \<lparr>memory_base = 4096, memory_size = 1024, possible_records = 31, records = 4096\<rparr>"
  by (simp add: example_one_def log_config example_big_config)

lemma example_one_active: "active example_one"
  by (simp add: active_def example_one_config NULL_def)

lemma example_one_count: "record_count Little example_one = 1"
  by (simp add: example_one_def log_success_count example_big_active example_big_count
      example_big_config)

section \<open>Consecutive logged profiles\<close>

lemma unat_count_succ:
  assumes "(x :: uint32_t) < y"
  shows "unat (x + 1) = unat x + 1"
proof -
  have "unat x < unat y" using assms by (simp add: word_less_nat_alt)
  moreover have "unat y < 2 ^ 32" using unsigned_less [of y] by simp
  ultimately have "unat x + 1 < 2 ^ 32" by simp
  then show ?thesis by (simp add: unat_word_ariths)
qed

lemma count_succ_le:
  assumes "(x :: uint32_t) < y"
  shows "x + 1 \<le> y"
  using assms unat_count_succ [OF assms] by (simp add: word_le_nat_alt word_less_nat_alt)

lemma c_str_nonzero: "b \<in> set (c_str cs) \<Longrightarrow> b \<noteq> 0"
  unfolding c_str_def by (auto dest: set_takeWhileD)

lemma strncpy_bytes_terminated:
  "strncpy_bytes l 23 @ [0] =
     take 23 (c_str l) @ replicate (24 - length (take 23 (c_str l))) 0"
proof -
  have "replicate (23 - length (c_str l)) (0 :: byte) @ [0] =
        replicate (Suc (23 - length (c_str l))) 0"
    by (simp add: replicate_append_same)
  moreover have "Suc (23 - length (c_str l)) = 24 - length (take 23 (c_str l))"
    by simp
  ultimately show ?thesis by (simp add: strncpy_bytes_def)
qed

lemma name_field_c_str:
  "takeWhile (\<lambda>b. b \<noteq> 0) (strncpy_bytes l 23 @ [0]) = take 23 (c_str l)"
proof -
  have nz: "\<forall>b \<in> set (take 23 (c_str l)). b \<noteq> 0"
    by (auto dest: in_set_takeD c_str_nonzero)
  have "24 - length (take 23 (c_str l)) = Suc (23 - length (take 23 (c_str l)))"
    by simp
  then have "takeWhile (\<lambda>b. b \<noteq> 0)
      (replicate (24 - length (take 23 (c_str l))) (0 :: byte)) = []"
    by simp
  then show ?thesis
    using nz by (simp add: strncpy_bytes_terminated takeWhile_append2 del: replicate_Suc)
qed

lemma log_success_status:
  assumes "active s" and "record_count e s < possible_records (gboot_records_config s)"
  shows "fst (boot_record_log_profile e now (Some l) s) = BOOT_RECORD_SUCCESS"
  by (simp add: log_success [OF assms])

lemma log_active:
  "active (snd (boot_record_log_profile e now name s)) = active s"
  by (simp add: active_def log_config)

lemma run_logs:
  assumes "active s"
    and "unat (record_count e s) + length ls \<le> unat (possible_records (gboot_records_config s))"
  shows "fst (run e (map (\<lambda>(t, l). Log t (Some l)) ls) s) =
           replicate (length ls) BOOT_RECORD_SUCCESS \<and>
         gboot_records_config (snd (run e (map (\<lambda>(t, l). Log t (Some l)) ls) s)) =
           gboot_records_config s \<and>
         unat (record_count e (snd (run e (map (\<lambda>(t, l). Log t (Some l)) ls) s))) =
           unat (record_count e s) + length ls \<and>
         (\<forall>i < length ls.
            profile_name (snd (run e (map (\<lambda>(t, l). Log t (Some l)) ls) s))
              (unat (record_count e s) + i) = strncpy_bytes (snd (ls ! i)) 23 @ [0] \<and>
            profile_time e (snd (run e (map (\<lambda>(t, l). Log t (Some l)) ls) s))
              (unat (record_count e s) + i) = fst (ls ! i)) \<and>
         (\<forall>i < unat (record_count e s).
            profile_name (snd (run e (map (\<lambda>(t, l). Log t (Some l)) ls) s)) i =
              profile_name s i \<and>
            profile_time e (snd (run e (map (\<lambda>(t, l). Log t (Some l)) ls) s)) i =
              profile_time e s i)"
  using assms
proof (induction ls arbitrary: s)
  case Nil
  show ?case by (simp add: run_Nil)
next
  case (Cons tl ls)
  obtain t l where tl: "tl = (t, l)" by (cases tl)
  let ?s1 = "snd (boot_record_log_profile e t (Some l) s)"
  let ?cs = "map (\<lambda>(t, l). Log t (Some l)) ls"
  have "unat (record_count e s) < unat (possible_records (gboot_records_config s))"
    using Cons.prems(2) by simp
  then have lt: "record_count e s < possible_records (gboot_records_config s)"
    by (simp add: word_less_nat_alt)
  note act = Cons.prems(1)
  have ok: "fst (boot_record_log_profile e t (Some l) s) = BOOT_RECORD_SUCCESS"
    by (rule log_success_status [OF act lt])
  have cnt: "unat (record_count e ?s1) = unat (record_count e s) + 1"
    by (simp add: log_success_count [OF act lt] unat_count_succ [OF lt])
  have cfg: "gboot_records_config ?s1 = gboot_records_config s"
    by (rule log_config)
  have act1: "active ?s1" using act by (simp add: log_active)
  have room: "unat (record_count e ?s1) + length ls \<le>
      unat (possible_records (gboot_records_config ?s1))"
    using Cons.prems(2) by (simp add: cnt cfg)
  note IH = Cons.IH [OF act1 room]
  have run_eq: "run e (map (\<lambda>(t, l). Log t (Some l)) (tl # ls)) s =
      (fst (boot_record_log_profile e t (Some l) s) # fst (run e ?cs ?s1),
       snd (run e ?cs ?s1))"
    by (simp add: tl run_Cons)
  have first_name: "profile_name (snd (run e ?cs ?s1)) (unat (record_count e s)) =
      strncpy_bytes l 23 @ [0]"
    using IH by (simp add: cnt log_success_name [OF act lt])
  have first_time: "profile_time e (snd (run e ?cs ?s1)) (unat (record_count e s)) = t"
    using IH by (simp add: cnt log_success_time [OF act lt])
  have new: "\<forall>i < length (tl # ls).
      profile_name (snd (run e ?cs ?s1)) (unat (record_count e s) + i) =
        strncpy_bytes (snd ((tl # ls) ! i)) 23 @ [0] \<and>
      profile_time e (snd (run e ?cs ?s1)) (unat (record_count e s) + i) = fst ((tl # ls) ! i)"
  proof (intro allI impI)
    fix i
    assume i: "i < length (tl # ls)"
    show "profile_name (snd (run e ?cs ?s1)) (unat (record_count e s) + i) =
        strncpy_bytes (snd ((tl # ls) ! i)) 23 @ [0] \<and>
      profile_time e (snd (run e ?cs ?s1)) (unat (record_count e s) + i) = fst ((tl # ls) ! i)"
    proof (cases i)
      case 0
      then show ?thesis using first_name first_time by (simp add: tl)
    next
      case (Suc j)
      with i have "j < length ls" by simp
      with IH have "profile_name (snd (run e ?cs ?s1)) (unat (record_count e ?s1) + j) =
          strncpy_bytes (snd (ls ! j)) 23 @ [0] \<and>
        profile_time e (snd (run e ?cs ?s1)) (unat (record_count e ?s1) + j) = fst (ls ! j)"
        by blast
      then show ?thesis by (simp add: Suc cnt)
    qed
  qed
  have old: "\<forall>i < unat (record_count e s).
      profile_name (snd (run e ?cs ?s1)) i = profile_name s i \<and>
      profile_time e (snd (run e ?cs ?s1)) i = profile_time e s i"
  proof (intro allI impI)
    fix i
    assume i: "i < unat (record_count e s)"
    then have "i < unat (record_count e ?s1)" by (simp add: cnt)
    with IH have "profile_name (snd (run e ?cs ?s1)) i = profile_name ?s1 i \<and>
      profile_time e (snd (run e ?cs ?s1)) i = profile_time e ?s1 i"
      by blast
    then show "profile_name (snd (run e ?cs ?s1)) i = profile_name s i \<and>
      profile_time e (snd (run e ?cs ?s1)) i = profile_time e s i"
      using i by (simp add: log_keeps_profile_name log_keeps_profile_time)
  qed
  have status: "fst (run e ?cs ?s1) = replicate (length ls) BOOT_RECORD_SUCCESS"
    and cfgN: "gboot_records_config (snd (run e ?cs ?s1)) = gboot_records_config s"
    and cntN: "unat (record_count e (snd (run e ?cs ?s1))) =
        unat (record_count e s) + length (tl # ls)"
    using IH by (simp_all add: cfg cnt)
  show ?case
    unfolding run_eq fst_conv snd_conv
    using ok status cfgN cntN new old by simp
qed

lemma c_str_long:
  "take 23 (c_str ''a_name_that_is_way_too_long_for_24_bytes'') =
     map of_char ''a_name_that_is_way_too_''"
  by (simp add: c_str_def)

lemma c_str_A: "c_str ''A'' = [65]"
  by (simp add: c_str_def)

lemma c_str_B: "c_str ''B'' = [66]"
  by (simp add: c_str_def)

section \<open>The bound on the record count\<close>

lemma init_ok_room:
  assumes "memory_addr \<noteq> NULL" and "48 \<le> unat sz"
  shows "record_count e (snd (boot_record_init e now stage_id memory_addr sz s)) <
    possible_records (gboot_records_config (snd (boot_record_init e now stage_id memory_addr sz s)))"
  using capacity_nonzero [OF assms(2)]
  by (simp add: init_ok_record_count [OF assms] init_ok_config [OF assms] word_greater_zero_iff)

lemma init_success_iff:
  "fst (boot_record_init e now stage_id memory_addr sz s) = BOOT_RECORD_SUCCESS \<longleftrightarrow>
     memory_addr \<noteq> NULL \<and> 48 \<le> unat sz"
  by (auto simp: init_status status_defs)


lemma step_bounded:
  assumes "active s \<longrightarrow> record_count e s \<le> possible_records (gboot_records_config s)"
  shows "active (snd (call_step e c s)) \<longrightarrow>
    record_count e (snd (call_step e c s)) \<le>
      possible_records (gboot_records_config (snd (call_step e c s)))"
proof (cases c)
  case (Init now stage_id memory_addr sz)
  show ?thesis
  proof (cases "memory_addr = NULL \<or> unat sz < 48")
    case True
    then show ?thesis using assms by (simp add: Init init_invalid)
  next
    case False
    then have ok: "memory_addr \<noteq> NULL" "48 \<le> unat sz" by simp_all
    show ?thesis by (simp add: Init init_ok_record_count [OF ok])
  qed
next
  case (Log now name)
  from log_cases [of e now name s] show ?thesis
  proof (elim disjE exE conjE)
    assume "boot_record_log_profile e now name s = (BOOT_RECORD_ERR_INVALID_PARAMS, s)"
    then show ?thesis using assms by (simp add: Log)
  next
    assume "boot_record_log_profile e now name s = (BOOT_RECORD_ERR_OVERFLOW, s)"
    then show ?thesis using assms by (simp add: Log)
  next
    fix l
    assume l: "name = Some l" and act: "active s"
      and lt: "record_count e s < possible_records (gboot_records_config s)"
    show ?thesis
      by (simp add: Log l log_success_count [OF act lt] log_config count_succ_le [OF lt])
  qed
qed

lemma run_bounded:
  assumes "active s \<longrightarrow> record_count e s \<le> possible_records (gboot_records_config s)"
  shows "active (snd (run e cs s)) \<longrightarrow>
    record_count e (snd (run e cs s)) \<le>
      possible_records (gboot_records_config (snd (run e cs s)))"
  using assms
proof (induction cs arbitrary: s)
  case Nil
  then show ?case by (simp add: run_Nil)
next
  case (Cons c cs)
  show ?case
    unfolding run_Cons snd_conv
    by (rule Cons.IH) (rule step_bounded [OF Cons.prems])
qed

lemma example_run:
  "snd (run Little [Init 100 1 4096 48, Log 101 (Some ''A''), Log 102 (Some ''B'')]
     (initial_state zero_memory)) = example_full"
proof -
  have "boot_record_log_profile Little 102 (Some ''B'') example_full =
      (BOOT_RECORD_ERR_OVERFLOW, example_full)"
    by (simp add: log_overflow example_full_active example_full_count example_full_config)
  then show ?thesis
    by (simp add: run_Cons run_Nil example_full_def [symmetric] example_fresh_def [symmetric])
qed

section \<open>The claims\<close>

text \<open>
  C1. Whenever \<open>boot_record_init\<close> returns success, the buffer was non-null and of at least
  48 bytes, and the stored \<open>possible_records\<close> is \<open>(size - 16) div 32\<close>, the subtraction and
  the division being those of the integers; a size of 1024 gives 31 and a size of 48 gives 1.
\<close>

theorem init_capacity:
  assumes "fst (boot_record_init e now stage_id memory_addr sz s) = BOOT_RECORD_SUCCESS"
  shows "memory_addr \<noteq> NULL \<and> 48 \<le> unat sz \<and>
    uint (possible_records (gboot_records_config
            (snd (boot_record_init e now stage_id memory_addr sz s)))) = (uint sz - 16) div 32 \<and>
    (sz = 1024 \<longrightarrow>
       possible_records (gboot_records_config
         (snd (boot_record_init e now stage_id memory_addr sz s))) = 31) \<and>
    (sz = 48 \<longrightarrow>
       possible_records (gboot_records_config
         (snd (boot_record_init e now stage_id memory_addr sz s))) = 1)"
proof -
  from assms have ok: "memory_addr \<noteq> NULL" "48 \<le> unat sz"
    by (auto simp: init_status status_defs split: if_splits)
  show ?thesis
    using ok by (auto simp: init_success capacity_uint)
qed

text \<open>The hypothesis holds for a buffer at address 4096 of 1024 and of 48 bytes.\<close>

theorem init_capacity_witness:
  "fst (boot_record_init Little 0 1 4096 1024 (initial_state zero_memory)) = BOOT_RECORD_SUCCESS \<and>
   possible_records (gboot_records_config
     (snd (boot_record_init Little 0 1 4096 1024 (initial_state zero_memory)))) = 31 \<and>
   fst (boot_record_init Big 0 1 4096 48 (initial_state zero_memory)) = BOOT_RECORD_SUCCESS \<and>
   possible_records (gboot_records_config
     (snd (boot_record_init Big 0 1 4096 48 (initial_state zero_memory)))) = 1"
proof -
  have a: "fst (boot_record_init Little 0 1 4096 1024 (initial_state zero_memory)) =
      BOOT_RECORD_SUCCESS"
    by (simp add: init_status NULL_def)
  have b: "fst (boot_record_init Big 0 1 4096 48 (initial_state zero_memory)) =
      BOOT_RECORD_SUCCESS"
    by (simp add: init_status NULL_def)
  show ?thesis
    using a b init_capacity [OF a] init_capacity [OF b] by simp
qed

text \<open>
  C4. \<open>boot_record_init\<close> returns \<open>BOOT_RECORD_ERR_INVALID_PARAMS\<close> exactly when the buffer is
  null or the size is below the size of the header plus one entry, which is 48 bytes. Sizes
  16 and 47 are rejected, a null buffer of size 1024 is rejected, and a non-null buffer of
  size 48 is accepted.
\<close>

theorem init_invalid_params_iff:
  "(fst (boot_record_init e now stage_id memory_addr sz s) = BOOT_RECORD_ERR_INVALID_PARAMS) =
     (memory_addr = NULL \<or>
      unat sz < sizeof_boot_stage_record_t + sizeof_boot_record_profile_t) \<and>
   sizeof_boot_stage_record_t + sizeof_boot_record_profile_t = 48 \<and>
   fst (boot_record_init e now 1 buf 16 s) = BOOT_RECORD_ERR_INVALID_PARAMS \<and>
   fst (boot_record_init e now 1 buf 47 s) = BOOT_RECORD_ERR_INVALID_PARAMS \<and>
   fst (boot_record_init e now 1 NULL 1024 s) = BOOT_RECORD_ERR_INVALID_PARAMS \<and>
   (buf \<noteq> NULL \<longrightarrow> fst (boot_record_init e now 1 buf 48 s) = BOOT_RECORD_SUCCESS)"
  by (simp add: init_status status_defs layout_defs)

text \<open>The same at the buffer address 4096.\<close>

theorem init_invalid_params_iff_witness:
  "fst (boot_record_init Little 5 1 4096 16 (initial_state zero_memory)) =
     BOOT_RECORD_ERR_INVALID_PARAMS \<and>
   fst (boot_record_init Little 5 1 4096 47 (initial_state zero_memory)) =
     BOOT_RECORD_ERR_INVALID_PARAMS \<and>
   fst (boot_record_init Little 5 1 NULL 1024 (initial_state zero_memory)) =
     BOOT_RECORD_ERR_INVALID_PARAMS \<and>
   (4096::nat) \<noteq> NULL \<and>
   fst (boot_record_init Little 5 1 4096 48 (initial_state zero_memory)) = BOOT_RECORD_SUCCESS"
  using init_invalid_params_iff [of Little 5 1 4096 48 "initial_state zero_memory" 4096]
  by (simp add: NULL_def)

text \<open>
  C6. \<open>boot_record_init\<close> never returns \<open>BOOT_RECORD_ERR_INSUFFICIENT_MEM\<close>: its result is
  success or invalid parameters, because a size of at least 48 gives a capacity of at
  least one record, which is not zero in the 32-bit field either.
\<close>

theorem init_never_insufficient_mem:
  "fst (boot_record_init e now stage_id memory_addr sz s) \<noteq> BOOT_RECORD_ERR_INSUFFICIENT_MEM \<and>
   (fst (boot_record_init e now stage_id memory_addr sz s) = BOOT_RECORD_SUCCESS \<or>
    fst (boot_record_init e now stage_id memory_addr sz s) = BOOT_RECORD_ERR_INVALID_PARAMS) \<and>
   (sizeof_boot_stage_record_t + sizeof_boot_record_profile_t \<le> unat sz \<longrightarrow>
      1 \<le> (unat sz - sizeof_boot_stage_record_t) div sizeof_boot_record_profile_t \<and>
      (of_nat ((unat sz - sizeof_boot_stage_record_t) div sizeof_boot_record_profile_t)
         :: uint32_t) \<noteq> 0)"
  using capacity_nonzero [of sz]
  by (auto simp: init_status status_defs layout_defs)

text \<open>The same at the smallest accepted size, 48.\<close>

theorem init_never_insufficient_mem_witness:
  "fst (boot_record_init Little 9 2 4096 48 (initial_state zero_memory)) \<noteq>
     BOOT_RECORD_ERR_INSUFFICIENT_MEM \<and>
   sizeof_boot_stage_record_t + sizeof_boot_record_profile_t \<le> unat (48 :: uint32_t) \<and>
   1 \<le> (unat (48 :: uint32_t) - sizeof_boot_stage_record_t) div sizeof_boot_record_profile_t"
  using init_never_insufficient_mem [of Little 9 2 4096 48 "initial_state zero_memory"]
  by (simp add: layout_defs status_defs)

text \<open>
  C8. \<open>boot_record_log_profile\<close> returns \<open>BOOT_RECORD_ERR_INVALID_PARAMS\<close> and leaves the
  whole state as it was when the label is null, and also when no buffer is bound. No buffer
  is bound in the initial state, so logging \<open>"x"\<close> there is rejected, and none is bound
  after any calls among which no \<open>boot_record_init\<close> has returned success: those calls
  leave the initial state as it was.
\<close>

theorem log_invalid_params:
  "boot_record_log_profile e now None s = (BOOT_RECORD_ERR_INVALID_PARAMS, s) \<and>
   (\<not> active s \<longrightarrow>
      boot_record_log_profile e now name s = (BOOT_RECORD_ERR_INVALID_PARAMS, s)) \<and>
   \<not> active (initial_state m) \<and>
   boot_record_log_profile e now (Some ''x'') (initial_state m) =
     (BOOT_RECORD_ERR_INVALID_PARAMS, initial_state m) \<and>
   (\<not> init_succeeded cs (fst (run e cs (initial_state m))) \<longrightarrow>
      snd (run e cs (initial_state m)) = initial_state m \<and>
      boot_record_log_profile e now name (snd (run e cs (initial_state m))) =
        (BOOT_RECORD_ERR_INVALID_PARAMS, initial_state m))"
proof -
  have un: "\<not> active (initial_state m)"
    by (simp add: active_def initial_state_def zero_config_def)
  show ?thesis
    using un by (simp add: log_null log_inactive run_inactive)
qed

text \<open>
  A log, an undersized init and a null init leave the store uninitialised, and the next log
  is rejected.
\<close>

theorem log_invalid_params_witness:
  "\<not> active (initial_state zero_memory) \<and>
   \<not> init_succeeded [Log 1 (Some ''x''), Init 2 1 4096 16, Init 3 1 NULL 1024]
       (fst (run Little [Log 1 (Some ''x''), Init 2 1 4096 16, Init 3 1 NULL 1024]
          (initial_state zero_memory))) \<and>
   boot_record_log_profile Little 4 (Some ''x'')
     (snd (run Little [Log 1 (Some ''x''), Init 2 1 4096 16, Init 3 1 NULL 1024]
        (initial_state zero_memory))) =
     (BOOT_RECORD_ERR_INVALID_PARAMS, initial_state zero_memory)"
proof -
  have un: "\<not> active (initial_state zero_memory)"
    by (simp add: active_def initial_state_def zero_config_def)
  have no: "\<not> init_succeeded [Log 1 (Some ''x''), Init 2 1 4096 16, Init 3 1 NULL 1024]
       (fst (run Little [Log 1 (Some ''x''), Init 2 1 4096 16, Init 3 1 NULL 1024]
          (initial_state zero_memory)))"
    using un by (simp add: run_Cons run_Nil log_inactive init_invalid status_defs)
  show ?thesis
    using un no
      log_invalid_params [of Little 4 "initial_state zero_memory" "Some ''x''" zero_memory
        "[Log 1 (Some ''x''), Init 2 1 4096 16, Init 3 1 NULL 1024]"]
    by simp
qed

text \<open>
  C3. On an initialised store whose \<open>record_count\<close> equals \<open>possible_records\<close>, logging a
  non-null label returns \<open>BOOT_RECORD_ERR_OVERFLOW\<close> and changes nothing: the configuration,
  \<open>record_count\<close> and every byte of memory stay. Any later calls among which no
  \<open>boot_record_init\<close> returns success leave the state unchanged as well, and each of them
  that logs a non-null label returns overflow again.
\<close>

theorem log_overflow_permanent:
  assumes "active s" and "record_count e s = possible_records (gboot_records_config s)"
  shows "boot_record_log_profile e now (Some l) s = (BOOT_RECORD_ERR_OVERFLOW, s) \<and>
    (\<not> init_succeeded cs (fst (run e cs s)) \<longrightarrow>
       run e cs s =
         (map (\<lambda>c. case c of Log t (Some l') \<Rightarrow> BOOT_RECORD_ERR_OVERFLOW
                     | _ \<Rightarrow> BOOT_RECORD_ERR_INVALID_PARAMS) cs, s))"
  using assms by (simp add: log_overflow run_full)

text \<open>
  The one-entry store after one logged profile is full: further logs overflow, also after
  a rejected init, and the state stays.
\<close>

theorem log_overflow_permanent_witness:
  "active example_full \<and>
   record_count Little example_full = possible_records (gboot_records_config example_full) \<and>
   boot_record_log_profile Little 102 (Some ''B'') example_full =
     (BOOT_RECORD_ERR_OVERFLOW, example_full) \<and>
   \<not> init_succeeded [Log 103 (Some ''C''), Init 104 2 NULL 1024, Log 105 None, Log 106 (Some ''D'')]
       (fst (run Little
          [Log 103 (Some ''C''), Init 104 2 NULL 1024, Log 105 None, Log 106 (Some ''D'')]
          example_full)) \<and>
   run Little [Log 103 (Some ''C''), Init 104 2 NULL 1024, Log 105 None, Log 106 (Some ''D'')]
     example_full =
     ([BOOT_RECORD_ERR_OVERFLOW, BOOT_RECORD_ERR_INVALID_PARAMS,
       BOOT_RECORD_ERR_INVALID_PARAMS, BOOT_RECORD_ERR_OVERFLOW], example_full)"
proof -
  have full: "record_count Little example_full =
      possible_records (gboot_records_config example_full)"
    by (simp add: example_full_count example_full_config)
  have no: "\<not> init_succeeded
       [Log 103 (Some ''C''), Init 104 2 NULL 1024, Log 105 None, Log 106 (Some ''D'')]
       (fst (run Little
          [Log 103 (Some ''C''), Init 104 2 NULL 1024, Log 105 None, Log 106 (Some ''D'')]
          example_full))"
    using example_full_active full
    by (simp add: run_Cons run_Nil log_overflow log_null init_invalid status_defs)
  show ?thesis
    using example_full_active full no
      log_overflow_permanent [OF example_full_active full, of 102 "''B''"
        "[Log 103 (Some ''C''), Init 104 2 NULL 1024, Log 105 None, Log 106 (Some ''D'')]"]
    by simp
qed

text \<open>
  C10. Whatever \<open>boot_record_log_profile\<close> returns, it leaves the configuration alone and
  changes no byte of memory outside the four bytes of \<open>record_count\<close> and the 32 bytes of
  the entry slot at index \<open>record_count\<close>. So \<open>record_id\<close>, \<open>start_time\<close> and the name and
  time of every entry below \<open>record_count\<close> read the same afterwards, and a call that does
  not return success changes nothing at all.
\<close>

theorem log_frame_effect:
  "gboot_records_config (snd (boot_record_log_profile e now name s)) = gboot_records_config s \<and>
   (\<forall>a. \<not> (records (gboot_records_config s) + offsetof_record_count \<le> a \<and>
            a < records (gboot_records_config s) + offsetof_record_count + 4) \<and>
        \<not> (profile_addr s (unat (record_count e s)) \<le> a \<and>
            a < profile_addr s (unat (record_count e s)) + sizeof_boot_record_profile_t) \<longrightarrow>
        mem (snd (boot_record_log_profile e now name s)) a = mem s a) \<and>
   record_id e (snd (boot_record_log_profile e now name s)) = record_id e s \<and>
   start_time e (snd (boot_record_log_profile e now name s)) = start_time e s \<and>
   (\<forall>i < unat (record_count e s).
      profile_name (snd (boot_record_log_profile e now name s)) i = profile_name s i \<and>
      profile_time e (snd (boot_record_log_profile e now name s)) i = profile_time e s i) \<and>
   (fst (boot_record_log_profile e now name s) \<noteq> BOOT_RECORD_SUCCESS \<longrightarrow>
      snd (boot_record_log_profile e now name s) = s)"
proof -
  have frame: "\<forall>a. \<not> (records (gboot_records_config s) + offsetof_record_count \<le> a \<and>
            a < records (gboot_records_config s) + offsetof_record_count + 4) \<and>
        \<not> (profile_addr s (unat (record_count e s)) \<le> a \<and>
            a < profile_addr s (unat (record_count e s)) + sizeof_boot_record_profile_t) \<longrightarrow>
        mem (snd (boot_record_log_profile e now name s)) a = mem s a"
  proof (intro allI impI)
    fix a
    assume "\<not> (records (gboot_records_config s) + offsetof_record_count \<le> a \<and>
            a < records (gboot_records_config s) + offsetof_record_count + 4) \<and>
        \<not> (profile_addr s (unat (record_count e s)) \<le> a \<and>
            a < profile_addr s (unat (record_count e s)) + sizeof_boot_record_profile_t)"
    then show "mem (snd (boot_record_log_profile e now name s)) a = mem s a"
      by (intro log_frame) (auto simp: layout_defs)
  qed
  show ?thesis
    using frame
    by (simp add: log_config log_keeps_record_id log_keeps_start_time log_keeps_profile_name
        log_keeps_profile_time log_not_success)
qed

text \<open>
  Logging a second profile into the 1024-byte store succeeds and leaves entry 0 and the
  first byte of the buffer as they were.
\<close>

theorem log_frame_effect_witness:
  "fst (boot_record_log_profile Little 102 (Some ''B'') example_one) = BOOT_RECORD_SUCCESS \<and>
   (0::nat) < unat (record_count Little example_one) \<and>
   profile_name (snd (boot_record_log_profile Little 102 (Some ''B'') example_one)) 0 =
     profile_name example_one 0 \<and>
   profile_time Little (snd (boot_record_log_profile Little 102 (Some ''B'') example_one)) 0 =
     profile_time Little example_one 0 \<and>
   \<not> (records (gboot_records_config example_one) + offsetof_record_count \<le> 4096 \<and>
      4096 < records (gboot_records_config example_one) + offsetof_record_count + 4) \<and>
   \<not> (profile_addr example_one (unat (record_count Little example_one)) \<le> 4096 \<and>
      4096 < profile_addr example_one (unat (record_count Little example_one)) +
             sizeof_boot_record_profile_t) \<and>
   mem (snd (boot_record_log_profile Little 102 (Some ''B'') example_one)) 4096 =
     mem example_one 4096"
proof -
  have ok: "fst (boot_record_log_profile Little 102 (Some ''B'') example_one) =
      BOOT_RECORD_SUCCESS"
    by (simp add: log_success example_one_active example_one_count example_one_config)
  show ?thesis
    using ok log_frame_effect [of Little 102 "Some ''B''" example_one]
    by (simp add: example_one_count example_one_config profile_addr_def layout_defs)
qed

text \<open>
  C2. On an initialised store with \<open>record_count\<close> below \<open>possible_records\<close>, logging a
  non-null label returns success. The name field of the entry at index \<open>record_count\<close> then
  holds the first 23 characters of the label at most, followed by NUL bytes up to 24, so
  that it reads back as the label cut at 23 characters; its time is the clock value of the
  call; and \<open>record_count\<close> has grown by exactly one, without wrapping. Hence consecutive
  logs that fit into the capacity all succeed and fill the indices from \<open>record_count\<close>
  upwards in call order, each entry keeping its own label and time.
\<close>

theorem log_appends:
  assumes "active s" and "record_count e s < possible_records (gboot_records_config s)"
  shows "fst (boot_record_log_profile e now (Some l) s) = BOOT_RECORD_SUCCESS \<and>
    profile_name (snd (boot_record_log_profile e now (Some l) s)) (unat (record_count e s)) =
      take 23 (c_str l) @ replicate (24 - length (take 23 (c_str l))) 0 \<and>
    takeWhile (\<lambda>b. b \<noteq> 0)
      (profile_name (snd (boot_record_log_profile e now (Some l) s))
         (unat (record_count e s))) = take 23 (c_str l) \<and>
    profile_time e (snd (boot_record_log_profile e now (Some l) s))
      (unat (record_count e s)) = now \<and>
    record_count e (snd (boot_record_log_profile e now (Some l) s)) = record_count e s + 1 \<and>
    unat (record_count e (snd (boot_record_log_profile e now (Some l) s))) =
      unat (record_count e s) + 1 \<and>
    (unat (record_count e s) + length ls \<le> unat (possible_records (gboot_records_config s)) \<longrightarrow>
       fst (run e (map (\<lambda>(t, l). Log t (Some l)) ls) s) =
         replicate (length ls) BOOT_RECORD_SUCCESS \<and>
       unat (record_count e (snd (run e (map (\<lambda>(t, l). Log t (Some l)) ls) s))) =
         unat (record_count e s) + length ls \<and>
       (\<forall>i < length ls.
          profile_name (snd (run e (map (\<lambda>(t, l). Log t (Some l)) ls) s))
            (unat (record_count e s) + i) =
            take 23 (c_str (snd (ls ! i))) @
              replicate (24 - length (take 23 (c_str (snd (ls ! i))))) 0 \<and>
          profile_time e (snd (run e (map (\<lambda>(t, l). Log t (Some l)) ls) s))
            (unat (record_count e s) + i) = fst (ls ! i)))"
proof -
  have one: "profile_name (snd (boot_record_log_profile e now (Some l) s))
      (unat (record_count e s)) = strncpy_bytes l 23 @ [0]"
    by (rule log_success_name [OF assms])
  have seq: "unat (record_count e s) + length ls \<le>
        unat (possible_records (gboot_records_config s)) \<longrightarrow>
       fst (run e (map (\<lambda>(t, l). Log t (Some l)) ls) s) =
         replicate (length ls) BOOT_RECORD_SUCCESS \<and>
       unat (record_count e (snd (run e (map (\<lambda>(t, l). Log t (Some l)) ls) s))) =
         unat (record_count e s) + length ls \<and>
       (\<forall>i < length ls.
          profile_name (snd (run e (map (\<lambda>(t, l). Log t (Some l)) ls) s))
            (unat (record_count e s) + i) =
            take 23 (c_str (snd (ls ! i))) @
              replicate (24 - length (take 23 (c_str (snd (ls ! i))))) 0 \<and>
          profile_time e (snd (run e (map (\<lambda>(t, l). Log t (Some l)) ls) s))
            (unat (record_count e s) + i) = fst (ls ! i))"
    using run_logs [OF assms(1), of e ls]
    by (simp only: strncpy_bytes_terminated) blast
  have "fst (boot_record_log_profile e now (Some l) s) = BOOT_RECORD_SUCCESS"
    by (rule log_success_status [OF assms])
  moreover have "profile_name (snd (boot_record_log_profile e now (Some l) s))
      (unat (record_count e s)) =
      take 23 (c_str l) @ replicate (24 - length (take 23 (c_str l))) 0"
    by (simp only: one strncpy_bytes_terminated)
  moreover have "takeWhile (\<lambda>b. b \<noteq> 0)
      (profile_name (snd (boot_record_log_profile e now (Some l) s))
         (unat (record_count e s))) = take 23 (c_str l)"
    by (simp only: one name_field_c_str)
  moreover have "profile_time e (snd (boot_record_log_profile e now (Some l) s))
      (unat (record_count e s)) = now"
    by (rule log_success_time [OF assms])
  moreover have "record_count e (snd (boot_record_log_profile e now (Some l) s)) =
      record_count e s + 1"
    by (rule log_success_count [OF assms])
  moreover have "unat (record_count e (snd (boot_record_log_profile e now (Some l) s))) =
      unat (record_count e s) + 1"
    by (simp only: log_success_count [OF assms] unat_count_succ [OF assms(2)])
  ultimately show ?thesis using seq by blast
qed


text \<open>
  On the fresh 1024-byte store a label of 40 characters is stored as its first 23
  characters and a NUL, and logging \<open>"A"\<close> and then \<open>"B"\<close> fills entries 0 and 1 in that
  order, with a count of 2.
\<close>

theorem log_appends_witness:
  "active example_big \<and>
   record_count Little example_big < possible_records (gboot_records_config example_big) \<and>
   fst (boot_record_log_profile Little 101
          (Some ''a_name_that_is_way_too_long_for_24_bytes'') example_big) =
     BOOT_RECORD_SUCCESS \<and>
   profile_name (snd (boot_record_log_profile Little 101
          (Some ''a_name_that_is_way_too_long_for_24_bytes'') example_big)) 0 =
     map of_char ''a_name_that_is_way_too_'' @ [0] \<and>
   record_count Little (snd (boot_record_log_profile Little 101
          (Some ''a_name_that_is_way_too_long_for_24_bytes'') example_big)) = 1 \<and>
   fst (run Little [Log 101 (Some ''A''), Log 102 (Some ''B'')] example_big) =
     [BOOT_RECORD_SUCCESS, BOOT_RECORD_SUCCESS] \<and>
   unat (record_count Little
     (snd (run Little [Log 101 (Some ''A''), Log 102 (Some ''B'')] example_big))) = 2 \<and>
   profile_name (snd (run Little [Log 101 (Some ''A''), Log 102 (Some ''B'')] example_big)) 0 =
     65 # replicate 23 0 \<and>
   profile_time Little
     (snd (run Little [Log 101 (Some ''A''), Log 102 (Some ''B'')] example_big)) 0 = 101 \<and>
   profile_name (snd (run Little [Log 101 (Some ''A''), Log 102 (Some ''B'')] example_big)) 1 =
     66 # replicate 23 0 \<and>
   profile_time Little
     (snd (run Little [Log 101 (Some ''A''), Log 102 (Some ''B'')] example_big)) 1 = 102"
proof -
  have lt: "record_count Little example_big <
      possible_records (gboot_records_config example_big)"
    by (simp add: example_big_count example_big_config)
  have room: "unat (record_count Little example_big) + length [(101 :: uint64_t, ''A''), (102, ''B'')]
      \<le> unat (possible_records (gboot_records_config example_big))"
    by (simp add: example_big_count example_big_config)
  note inst = log_appends [OF example_big_active lt, of 101
      "''a_name_that_is_way_too_long_for_24_bytes''" "[(101, ''A''), (102, ''B'')]"]
  show ?thesis
    using example_big_active lt room inst
    by (simp add: example_big_count example_big_config c_str_long c_str_A c_str_B
        All_less_Suc)
qed

text \<open>
  C7. When \<open>boot_record_init\<close> returns success, the memory it leaves is the old memory with
  all \<open>size\<close> bytes of the buffer set to zero and then the header written over it:
  \<open>record_id\<close> is the stage id, \<open>record_count\<close> is 0 and \<open>start_time\<close> is the clock value.
  Every byte of the buffer after the header is zero and memory outside the buffer is
  untouched. The configuration is the fresh one for this buffer, and neither it nor the
  buffer's contents depend on the state before the call: starting from any other state
  \<open>s0\<close> gives the same. The next log of a non-null label succeeds.
\<close>

theorem init_resets:
  assumes "fst (boot_record_init e now stage_id memory_addr sz s) = BOOT_RECORD_SUCCESS"
  shows "mem (snd (boot_record_init e now stage_id memory_addr sz s)) =
      store_u64 e
        (store_u32 e
          (store_u32 e (memset (mem s) memory_addr 0 (unat sz))
             (memory_addr + offsetof_record_id) stage_id)
          (memory_addr + offsetof_record_count) 0)
        (memory_addr + offsetof_start_time) now \<and>
    (\<forall>a. memory_addr \<le> a \<and> a < memory_addr + unat sz \<longrightarrow>
         memset (mem s) memory_addr 0 (unat sz) a = 0) \<and>
    (\<forall>a. memory_addr + sizeof_boot_stage_record_t \<le> a \<and> a < memory_addr + unat sz \<longrightarrow>
         mem (snd (boot_record_init e now stage_id memory_addr sz s)) a = 0) \<and>
    (\<forall>a. a < memory_addr \<or> memory_addr + unat sz \<le> a \<longrightarrow>
         mem (snd (boot_record_init e now stage_id memory_addr sz s)) a = mem s a) \<and>
    gboot_records_config (snd (boot_record_init e now stage_id memory_addr sz s)) =
      \<lparr>memory_base = memory_addr, memory_size = sz,
       possible_records = of_nat ((unat sz - 16) div 32), records = memory_addr\<rparr> \<and>
    active (snd (boot_record_init e now stage_id memory_addr sz s)) \<and>
    record_id e (snd (boot_record_init e now stage_id memory_addr sz s)) = stage_id \<and>
    record_count e (snd (boot_record_init e now stage_id memory_addr sz s)) = 0 \<and>
    start_time e (snd (boot_record_init e now stage_id memory_addr sz s)) = now \<and>
    gboot_records_config (snd (boot_record_init e now stage_id memory_addr sz s0)) =
      gboot_records_config (snd (boot_record_init e now stage_id memory_addr sz s)) \<and>
    (\<forall>a. memory_addr \<le> a \<and> a < memory_addr + unat sz \<longrightarrow>
         mem (snd (boot_record_init e now stage_id memory_addr sz s0)) a =
         mem (snd (boot_record_init e now stage_id memory_addr sz s)) a) \<and>
    fst (boot_record_log_profile e t (Some l)
           (snd (boot_record_init e now stage_id memory_addr sz s))) = BOOT_RECORD_SUCCESS"
proof -
  from assms have ok: "memory_addr \<noteq> NULL" "48 \<le> unat sz"
    by (simp_all add: init_success_iff)
  have "mem (snd (boot_record_init e now stage_id memory_addr sz s)) =
      store_u64 e
        (store_u32 e
          (store_u32 e (memset (mem s) memory_addr 0 (unat sz))
             (memory_addr + offsetof_record_id) stage_id)
          (memory_addr + offsetof_record_count) 0)
        (memory_addr + offsetof_start_time) now"
    by (simp add: init_ok_mem [OF ok] layout_defs)
  moreover have "\<forall>a. memory_addr \<le> a \<and> a < memory_addr + unat sz \<longrightarrow>
         memset (mem s) memory_addr 0 (unat sz) a = 0"
    by (simp add: memset_def)
  moreover have "\<forall>a. memory_addr + sizeof_boot_stage_record_t \<le> a \<and>
         a < memory_addr + unat sz \<longrightarrow>
         mem (snd (boot_record_init e now stage_id memory_addr sz s)) a = 0"
    by (simp add: init_ok_body_zero [OF ok] layout_defs)
  moreover have "\<forall>a. a < memory_addr \<or> memory_addr + unat sz \<le> a \<longrightarrow>
         mem (snd (boot_record_init e now stage_id memory_addr sz s)) a = mem s a"
    by (simp add: init_ok_outside [OF ok])
  moreover have "\<forall>a. memory_addr \<le> a \<and> a < memory_addr + unat sz \<longrightarrow>
         mem (snd (boot_record_init e now stage_id memory_addr sz s0)) a =
         mem (snd (boot_record_init e now stage_id memory_addr sz s)) a"
    using init_ok_inside_independent [OF ok] by blast
  moreover have "fst (boot_record_log_profile e t (Some l)
           (snd (boot_record_init e now stage_id memory_addr sz s))) = BOOT_RECORD_SUCCESS"
    by (rule log_success_status [OF init_ok_active [OF ok] init_ok_room [OF ok]])
  ultimately show ?thesis
    by (simp add: init_ok_config [OF ok] init_ok_active [OF ok] init_ok_record_id [OF ok]
        init_ok_record_count [OF ok] init_ok_start_time [OF ok])
qed

text \<open>
  The full one-entry store rejects a log with overflow; after a new init on the same buffer
  the count is 0 again, the first entry slot is zeroed and a log succeeds.
\<close>

theorem init_resets_witness:
  "fst (boot_record_log_profile Little 102 (Some ''B'') example_full) =
     BOOT_RECORD_ERR_OVERFLOW \<and>
   record_count Little example_full = 1 \<and>
   fst (boot_record_init Little 200 2 4096 48 example_full) = BOOT_RECORD_SUCCESS \<and>
   record_id Little (snd (boot_record_init Little 200 2 4096 48 example_full)) = 2 \<and>
   record_count Little (snd (boot_record_init Little 200 2 4096 48 example_full)) = 0 \<and>
   start_time Little (snd (boot_record_init Little 200 2 4096 48 example_full)) = 200 \<and>
   (4096::nat) + sizeof_boot_stage_record_t \<le> 4112 \<and> (4112::nat) < 4096 + unat (48 :: uint32_t) \<and>
   mem (snd (boot_record_init Little 200 2 4096 48 example_full)) 4112 = 0 \<and>
   fst (boot_record_log_profile Little 201 (Some ''C'')
          (snd (boot_record_init Little 200 2 4096 48 example_full))) = BOOT_RECORD_SUCCESS"
proof -
  have ov: "fst (boot_record_log_profile Little 102 (Some ''B'') example_full) =
      BOOT_RECORD_ERR_OVERFLOW"
    by (simp add: log_overflow example_full_active example_full_count example_full_config)
  have ok: "fst (boot_record_init Little 200 2 4096 48 example_full) = BOOT_RECORD_SUCCESS"
    by (simp add: init_success_iff NULL_def)
  note inst = init_resets [OF ok, of example_full 201 "''C''"]
  from inst have "\<forall>a. 4096 + sizeof_boot_stage_record_t \<le> a \<and> a < 4096 + unat (48 :: uint32_t) \<longrightarrow>
      mem (snd (boot_record_init Little 200 2 4096 48 example_full)) a = 0"
    by blast
  then have z: "mem (snd (boot_record_init Little 200 2 4096 48 example_full)) 4112 = 0"
    by (simp add: layout_defs)
  from inst have rest:
    "record_id Little (snd (boot_record_init Little 200 2 4096 48 example_full)) = 2 \<and>
     record_count Little (snd (boot_record_init Little 200 2 4096 48 example_full)) = 0 \<and>
     start_time Little (snd (boot_record_init Little 200 2 4096 48 example_full)) = 200 \<and>
     fst (boot_record_log_profile Little 201 (Some ''C'')
          (snd (boot_record_init Little 200 2 4096 48 example_full))) = BOOT_RECORD_SUCCESS"
    by blast
  show ?thesis
    using ov ok z rest by (simp add: example_full_count layout_defs)
qed

text \<open>
  C9. In the state after any sequence of \<open>boot_record_init\<close> and \<open>boot_record_log_profile\<close>
  calls from an initial state, with any arguments and clock values, an initialised store
  has \<open>record_count \<le> possible_records\<close>.
\<close>

theorem record_count_bounded:
  "active (snd (run e cs (initial_state m))) \<longrightarrow>
     record_count e (snd (run e cs (initial_state m))) \<le>
       possible_records (gboot_records_config (snd (run e cs (initial_state m))))"
  by (rule run_bounded) (simp add: active_def initial_state_def zero_config_def)

text \<open>
  An init on a 48-byte buffer followed by two logs ends in an initialised store, the full
  one of the examples.
\<close>

theorem record_count_bounded_witness:
  "active (snd (run Little [Init 100 1 4096 48, Log 101 (Some ''A''), Log 102 (Some ''B'')]
     (initial_state zero_memory))) \<and>
   record_count Little
     (snd (run Little [Init 100 1 4096 48, Log 101 (Some ''A''), Log 102 (Some ''B'')]
        (initial_state zero_memory))) \<le>
   possible_records (gboot_records_config
     (snd (run Little [Init 100 1 4096 48, Log 101 (Some ''A''), Log 102 (Some ''B'')]
        (initial_state zero_memory))))"
proof -
  have act: "active (snd (run Little
      [Init 100 1 4096 48, Log 101 (Some ''A''), Log 102 (Some ''B'')]
      (initial_state zero_memory)))"
    by (simp only: example_run example_full_active)
  show ?thesis
    using act record_count_bounded [of Little
        "[Init 100 1 4096 48, Log 101 (Some ''A''), Log 102 (Some ''B'')]" zero_memory]
    by blast
qed

text \<open>
  C5 as stated fails. On the initialised 48-byte store an init with a null buffer is
  rejected with \<open>BOOT_RECORD_ERR_INVALID_PARAMS\<close>, and the log that follows returns
  success, not \<open>BOOT_RECORD_ERR_INVALID_PARAMS\<close>: the store is still initialised.
\<close>

theorem failed_init_not_uninitialised:
  "fst (boot_record_init Little 200 1 NULL 1024 example_fresh) =
     BOOT_RECORD_ERR_INVALID_PARAMS \<and>
   fst (boot_record_log_profile Little 201 (Some ''x'')
          (snd (boot_record_init Little 200 1 NULL 1024 example_fresh))) =
     BOOT_RECORD_SUCCESS \<and>
   fst (boot_record_log_profile Little 201 (Some ''x'')
          (snd (boot_record_init Little 200 1 NULL 1024 example_fresh))) \<noteq>
     BOOT_RECORD_ERR_INVALID_PARAMS"
proof -
  have lt: "record_count Little example_fresh <
      possible_records (gboot_records_config example_fresh)"
    by (simp add: example_fresh_count example_fresh_config)
  show ?thesis
    by (simp add: init_invalid log_success_status [OF example_fresh_active lt] status_defs)
qed

text \<open>
  C5, amended. A call of \<open>boot_record_init\<close> that does not return success returns
  \<open>BOOT_RECORD_ERR_INVALID_PARAMS\<close>, its buffer being null or smaller than 48 bytes, and
  leaves the configuration and the memory exactly as they were. So a store that was not
  initialised before the call is not initialised after it, and logging is rejected with
  \<open>BOOT_RECORD_ERR_INVALID_PARAMS\<close> right away and after any further calls among which no
  init succeeds; a store that was initialised before the call still is.
\<close>

theorem failed_init_keeps_state:
  assumes "fst (boot_record_init e now stage_id memory_addr sz s) \<noteq> BOOT_RECORD_SUCCESS"
  shows "boot_record_init e now stage_id memory_addr sz s =
      (BOOT_RECORD_ERR_INVALID_PARAMS, s) \<and>
    (memory_addr = NULL \<or> unat sz < 48) \<and>
    active (snd (boot_record_init e now stage_id memory_addr sz s)) = active s \<and>
    (\<not> active s \<longrightarrow>
       boot_record_log_profile e t name (snd (boot_record_init e now stage_id memory_addr sz s)) =
         (BOOT_RECORD_ERR_INVALID_PARAMS, s)) \<and>
    (\<not> active s \<and>
     \<not> init_succeeded cs
         (fst (run e cs (snd (boot_record_init e now stage_id memory_addr sz s)))) \<longrightarrow>
       boot_record_log_profile e t name
         (snd (run e cs (snd (boot_record_init e now stage_id memory_addr sz s)))) =
         (BOOT_RECORD_ERR_INVALID_PARAMS, s))"
proof -
  have eq: "boot_record_init e now stage_id memory_addr sz s =
      (BOOT_RECORD_ERR_INVALID_PARAMS, s)"
    by (rule init_failed [OF assms])
  have bad: "memory_addr = NULL \<or> unat sz < 48"
    using assms by (auto simp: init_success_iff)
  show ?thesis
    using bad by (simp add: eq log_inactive run_inactive)
qed

text \<open>
  An init with 47 bytes on the initial state, and an init with a null buffer on the
  initialised 48-byte store.
\<close>

theorem failed_init_keeps_state_witness:
  "fst (boot_record_init Little 200 1 4096 47 (initial_state zero_memory)) \<noteq>
     BOOT_RECORD_SUCCESS \<and>
   \<not> active (initial_state zero_memory) \<and>
   \<not> init_succeeded [Log 201 (Some ''x'')]
       (fst (run Little [Log 201 (Some ''x'')]
          (snd (boot_record_init Little 200 1 4096 47 (initial_state zero_memory))))) \<and>
   boot_record_init Little 200 1 4096 47 (initial_state zero_memory) =
     (BOOT_RECORD_ERR_INVALID_PARAMS, initial_state zero_memory) \<and>
   boot_record_log_profile Little 202 (Some ''y'')
     (snd (run Little [Log 201 (Some ''x'')]
        (snd (boot_record_init Little 200 1 4096 47 (initial_state zero_memory))))) =
     (BOOT_RECORD_ERR_INVALID_PARAMS, initial_state zero_memory) \<and>
   fst (boot_record_init Little 200 1 NULL 1024 example_fresh) \<noteq> BOOT_RECORD_SUCCESS \<and>
   active example_fresh \<and>
   boot_record_init Little 200 1 NULL 1024 example_fresh =
     (BOOT_RECORD_ERR_INVALID_PARAMS, example_fresh) \<and>
   active (snd (boot_record_init Little 200 1 NULL 1024 example_fresh))"
proof -
  have f1: "fst (boot_record_init Little 200 1 4096 47 (initial_state zero_memory)) \<noteq>
      BOOT_RECORD_SUCCESS"
    by (simp add: init_success_iff)
  have f2: "fst (boot_record_init Little 200 1 NULL 1024 example_fresh) \<noteq> BOOT_RECORD_SUCCESS"
    by (simp add: init_success_iff)
  have un: "\<not> active (initial_state zero_memory)"
    by (simp add: active_def initial_state_def zero_config_def)
  have no: "\<not> init_succeeded [Log 201 (Some ''x'')]
       (fst (run Little [Log 201 (Some ''x'')]
          (snd (boot_record_init Little 200 1 4096 47 (initial_state zero_memory)))))"
    by (simp add: run_Cons run_Nil)
  show ?thesis
    using f1 f2 un no example_fresh_active
      failed_init_keeps_state [OF f1, of 202 "Some ''y''" "[Log 201 (Some ''x'')]"]
      failed_init_keeps_state [OF f2]
    by blast
qed

end
